theory Spec2Isabelle
  imports Main
begin

section \<open>Python values used by inference.py\<close>

text \<open>
  A Python \<open>str\<close> is a sequence of Unicode code points (the built-in example prompts of
  the script are Chinese), so a string is a list of code points, not a list of bytes.
  Token ids are Python integers.
\<close>

type_synonym pystr = "nat list"
type_synonym token = int

definition ascii :: "string \<Rightarrow> pystr" where
  "ascii s = map of_char s"

text \<open>
  Slicing. \<open>xs[k:]\<close> and \<open>xs[i:j]\<close> never raise: a negative index counts from the end
  and every index is clamped to the range of the list.
\<close>

definition py_index :: "nat \<Rightarrow> int \<Rightarrow> nat" where
  "py_index n k = (if k < 0 then nat (max (k + int n) 0) else min (nat k) n)"

definition py_slice_from :: "int \<Rightarrow> 'a list \<Rightarrow> 'a list" where
  "py_slice_from k xs = drop (py_index (length xs) k) xs"

definition py_slice :: "int \<Rightarrow> int \<Rightarrow> 'a list \<Rightarrow> 'a list" where
  "py_slice i j xs =
     (let start = py_index (length xs) i; stop = py_index (length xs) j
      in take (stop - start) (drop start xs))"

text \<open>
  \<open>s.rfind(sub, start)\<close>: the highest index \<open>p\<close> with \<open>start \<le> p\<close> at which \<open>sub\<close>
  lies inside \<open>s\<close>, and \<open>-1\<close> when there is none. The empty \<open>sub\<close> is found at every
  position up to \<open>len(s)\<close>, and nowhere when \<open>start\<close> is beyond the end.
\<close>

definition occurs_at :: "'a list \<Rightarrow> 'a list \<Rightarrow> nat \<Rightarrow> bool" where
  "occurs_at s sub p =
     (p + length sub \<le> length s \<and> take (length sub) (drop p s) = sub)"

definition py_rfind :: "'a list \<Rightarrow> 'a list \<Rightarrow> int \<Rightarrow> int" where
  "py_rfind s sub start =
     (let n = length s;
          lo = (if start < 0 then nat (max (start + int n) 0) else nat start)
      in if int n - int lo < int (length sub) then - 1
         else (case filter (occurs_at s sub) (rev [lo ..< Suc (n - length sub)]) of
                 [] \<Rightarrow> - 1
               | p # _ \<Rightarrow> int p))"

section \<open>Collaborators and the world\<close>

text \<open>
  The tokenizer and the model are loaded objects that the script only calls. The
  tokenizer is a record of the three things \<open>generate_answer\<close> uses. Generation samples
  (\<open>do_sample=True\<close>), so two calls with the same input may differ: the model is a
  function of the number of generation calls made before and of the input ids, and it
  returns \<open>generation_output[0]\<close>. Calls of the collaborators are taken to return.
\<close>

record tokenizer =
  encode :: "pystr \<Rightarrow> token list"
  decode :: "token list \<Rightarrow> pystr"
  eos_token :: pystr

text \<open>
  What a run does to its surroundings is kept in the world: the lines still to be read
  from the standard input (none left is the end of the input), the text files that can
  be read, and the trace of the calls of the tokenizer and the model and of the writes
  to the file system, in the order in which they are made. A record of the predictions
  file is the dictionary \<open>{"Input": ..., "Output": ...}\<close>; a dump is kept as the list
  of records written, not as its JSON text.

  Whether the file system lets a directory be created, a file be opened for writing and
  a text be written is a matter of the file system of the run (what exists, the
  permissions, the encoding of the file), so the world answers for it: \<open>makedirs_error\<close>,
  \<open>open_error\<close> and \<open>dump_error\<close> give the error with which the call is refused,
  and \<open>None\<close> when it is not.
\<close>

record prediction =
  Input :: pystr
  Output :: pystr

datatype event =
    Tokenize pystr
  | Generate "token list"
  | Makedirs pystr
  | OpenWrite pystr
  | JsonDump pystr "prediction list"

datatype error =
    EOFError
  | IndexError
  | FileNotFoundError
  | FileExistsError
  | IsADirectoryError
  | NotADirectoryError
  | PermissionError
  | UnicodeEncodeError
  | OSError

record world =
  stdin :: "pystr list"
  files :: "pystr \<rightharpoonup> pystr"
  makedirs_error :: "pystr \<rightharpoonup> error"
  open_error :: "pystr \<rightharpoonup> error"
  dump_error :: "pystr \<Rightarrow> prediction list \<rightharpoonup> error"
  trace :: "event list"

definition log :: "event \<Rightarrow> world \<Rightarrow> world" where
  "log e w = w\<lparr>trace := trace w @ [e]\<rparr>"

fun model_inputs :: "event list \<Rightarrow> token list list" where
  "model_inputs [] = []"
| "model_inputs (Generate ids # es) = ids # model_inputs es"
| "model_inputs (e # es) = model_inputs es"

section \<open>generate_answer\<close>

text \<open>
  The function of lines 46 to 73. The sampling parameters go to the model with the
  input ids and \<open>device\<close> only places the tensor, so neither is an argument here. The
  function has no \<open>raise\<close> and no \<open>try\<close>: it returns a string on every input.
\<close>

definition max_new_tokens :: int where
  "max_new_tokens = 400"

definition generate_answer ::
  "(nat \<Rightarrow> token list \<Rightarrow> token list) \<Rightarrow> tokenizer \<Rightarrow> pystr \<Rightarrow> int \<Rightarrow> world \<Rightarrow> pystr \<times> world" where
  "generate_answer mdl tok prompt context_len w =
     (let input_ids0 = encode tok prompt;
          w1 = log (Tokenize prompt) w;
          max_src_len = context_len - max_new_tokens - 8;
          input_ids = py_slice_from (- max_src_len) input_ids0;
          output_ids = mdl (length (model_inputs (trace w1))) input_ids;
          w2 = log (Generate input_ids) w1;
          output = decode tok output_ids;
          stop_str = eos_token tok;
          l_prompt = int (length (decode tok input_ids));
          pos = py_rfind output stop_str l_prompt
      in if pos \<noteq> - 1 then (py_slice l_prompt pos output, w2)
         else (py_slice_from l_prompt output, w2))"

section \<open>Strings and files\<close>

text \<open>
  \<open>str.strip()\<close> removes the leading and the trailing whitespace; the whitespace code
  points are those of \<open>str.isspace\<close>.
\<close>

definition isspace :: "nat \<Rightarrow> bool" where
  "isspace c =
     ((9 \<le> c \<and> c \<le> 13) \<or> (28 \<le> c \<and> c \<le> 32) \<or> c = 133 \<or> c = 160 \<or> c = 5760 \<or>
      (8192 \<le> c \<and> c \<le> 8202) \<or> c = 8232 \<or> c = 8233 \<or> c = 8239 \<or> c = 8287 \<or>
      c = 12288)"

definition strip :: "pystr \<Rightarrow> pystr" where
  "strip s = rev (dropWhile isspace (rev (dropWhile isspace s)))"

text \<open>
  A file opened with mode \<open>'r'\<close> is read with universal newlines: \<open>\r\n\<close> and a lone
  \<open>\r\<close> arrive as \<open>\n\<close>. \<open>readlines()\<close> cuts the text after every \<open>\n\<close>; each line
  keeps its \<open>\n\<close>, and a last line without one is a line too.
\<close>

fun universal_newlines :: "pystr \<Rightarrow> pystr" where
  "universal_newlines [] = []"
| "universal_newlines [c] = [if c = 13 then 10 else c]"
| "universal_newlines (c # d # cs) =
     (if c = 13 \<and> d = 10 then 10 # universal_newlines cs
      else if c = 13 then 10 # universal_newlines (d # cs)
      else c # universal_newlines (d # cs))"

fun readlines :: "pystr \<Rightarrow> pystr list" where
  "readlines [] = []"
| "readlines (c # cs) =
     (if c = 10 then [10] # readlines cs
      else (case readlines cs of [] \<Rightarrow> [[c]] | l # ls \<Rightarrow> (c # l) # ls))"

text \<open>
  \<open>os.path.dirname\<close> of \<open>posixpath\<close>: everything up to the last \<open>/\<close>, without trailing
  slashes unless it consists of slashes only.
\<close>

definition os_path_dirname :: "pystr \<Rightarrow> pystr" where
  "os_path_dirname p =
     (let i = py_rfind p [47] 0 + 1;
          head = py_slice 0 i p
      in if head \<noteq> [] \<and> head \<noteq> replicate (length head) 47
         then rev (dropWhile (\<lambda>c. c = 47) (rev head))
         else head)"

text \<open>
  \<open>os.makedirs(name, exist_ok=True)\<close>. \<open>mkdir('')\<close> fails with \<open>ENOENT\<close>, and
  \<open>exist_ok\<close> does not cover it since \<open>''\<close> is no directory, so the empty name raises
  \<open>FileNotFoundError\<close>. A name that is a regular file raises \<open>FileExistsError\<close>, for
  the same reason. Every other refusal is the file system's.
\<close>

definition makedirs_outcome :: "world \<Rightarrow> pystr \<Rightarrow> error option" where
  "makedirs_outcome w name =
     (if name = [] then Some FileNotFoundError
      else if files w name \<noteq> None then Some FileExistsError
      else makedirs_error w name)"

definition os_makedirs :: "pystr \<Rightarrow> world \<Rightarrow> error option \<times> world" where
  "os_makedirs name w =
     (case makedirs_outcome w name of
        Some e \<Rightarrow> (Some e, w)
      | None \<Rightarrow> (None, log (Makedirs name) w))"

text \<open>
  \<open>open(path, 'w')\<close> creates or empties the file. A path that ends with a slash names a
  directory and raises \<open>IsADirectoryError\<close>; every other refusal is the file system's.
  \<open>json.dump(results, f)\<close> writes into the opened file; when it is refused, the file
  stays as far as it was written, with no complete dump in it.
\<close>

definition open_outcome :: "world \<Rightarrow> pystr \<Rightarrow> error option" where
  "open_outcome w path =
     (if path \<noteq> [] \<and> last path = 47 then Some IsADirectoryError else open_error w path)"

definition open_w :: "pystr \<Rightarrow> world \<Rightarrow> error option \<times> world" where
  "open_w path w =
     (case open_outcome w path of
        Some e \<Rightarrow> (Some e, w)
      | None \<Rightarrow> (None, log (OpenWrite path) w))"

definition json_dump :: "pystr \<Rightarrow> prediction list \<Rightarrow> world \<Rightarrow> error option \<times> world" where
  "json_dump path results w =
     (case dump_error w path results of
        Some e \<Rightarrow> (Some e, w)
      | None \<Rightarrow> (None, log (JsonDump path results) w))"

section \<open>Conversation templates\<close>

text \<open>
  Modelled from the spec: the conversation class and \<open>get_conv_template\<close> come from the
  module \<open>supervised_finetuning\<close>. A conversation state is
  \<open>{template_id, roles, messages, separator_style}\<close>; \<open>append(role, content)\<close> adds a
  message to the end of the sequence and accepts any string. The render is a pure
  function of this state; it and the registry lookup are parameters of the session.
\<close>

record 'sty conversation =
  template_id :: pystr
  roles :: "pystr \<times> pystr"
  messages :: "(pystr \<times> pystr) list"
  separator_style :: 'sty

definition append_message :: "pystr \<Rightarrow> pystr \<Rightarrow> 'sty conversation \<Rightarrow> 'sty conversation" where
  "append_message role content conv = conv\<lparr>messages := messages conv @ [(role, content)]\<rparr>"

text \<open>
  The statement \<open>conv.messages[-1][-1] = v\<close> of the script: an empty message list raises
  \<open>IndexError\<close>, otherwise the content of the last message is overwritten.
\<close>

definition set_last_content :: "pystr \<Rightarrow> 'sty conversation \<Rightarrow> error + 'sty conversation" where
  "set_last_content v conv =
     (if messages conv = [] then Inl IndexError
      else Inr (conv\<lparr>messages := butlast (messages conv) @ [(fst (last (messages conv)), v)]\<rparr>))"

record 'sty deps =
  model :: "nat \<Rightarrow> token list \<Rightarrow> token list"
  tokenizer :: tokenizer
  get_conv_template :: "pystr \<Rightarrow> 'sty conversation"
  get_prompt :: "'sty conversation \<Rightarrow> pystr"

section \<open>main\<close>

record args =
  model_type :: pystr
  base_model :: pystr
  lora_model :: pystr
  tokenizer_path :: "pystr option"
  template_name :: pystr
  data_file :: "pystr option"
  interactive :: bool
  predictions_file :: pystr
  resize_emb :: bool

text \<open>
  Loading the model and the tokenizer is the work of the libraries; \<open>main\<close> is modelled
  from the point where they are loaded. Console output is not modelled.
\<close>

text \<open>
  Lines 126 to 130: the two built-in prompts, or the stripped lines of the data file; a
  data file that does not exist raises \<open>FileNotFoundError\<close>.
\<close>

definition builtin_examples :: "pystr list" where
  "builtin_examples =
     [[20171, 32461, 19979, 21271, 20140],
      [20057, 32925, 21644, 19993, 32925, 30340, 21306, 21035, 65311]]"

definition load_examples :: "pystr option \<Rightarrow> world \<Rightarrow> error + pystr list" where
  "load_examples file w =
     (case file of
        None \<Rightarrow> Inr builtin_examples
      | Some path \<Rightarrow>
          (case files w path of
             None \<Rightarrow> Inl FileNotFoundError
           | Some text \<Rightarrow> Inr (map strip (readlines (universal_newlines text)))))"

text \<open>
  \<open>input()\<close> returns the next line of the standard input without its newline and raises
  \<open>EOFError\<close> at the end of the input; the loop turns that into the empty string.
\<close>

definition prompt_for_input :: "pystr \<Rightarrow> world \<Rightarrow> (error + pystr) \<times> world" where
  "prompt_for_input role w =
     (case stdin w of
        [] \<Rightarrow> (Inl EOFError, w)
      | l # ls \<Rightarrow> (Inr l, w\<lparr>stdin := ls\<rparr>))"

text \<open>
  Lines 143 to 146, the \<open>try\<close> around the read; lines 151 to 159, one turn; lines 142 to
  159, the loop, which ends on an empty \<open>inp\<close>. The loop terminates because every turn
  consumes a line of the standard input.
\<close>

definition read_inp :: "pystr \<Rightarrow> world \<Rightarrow> (error + pystr) \<times> world" where
  "read_inp role w =
     (case prompt_for_input role w of
        (Inl e, w1) \<Rightarrow> (if e = EOFError then (Inr [], w1) else (Inl e, w1))
      | (Inr inp, w1) \<Rightarrow> (Inr inp, w1))"

definition interactive_turn ::
  "'sty deps \<Rightarrow> 'sty conversation \<Rightarrow> pystr \<Rightarrow> world \<Rightarrow> (error + 'sty conversation) \<times> world" where
  "interactive_turn d conv inp w =
     (let conv1 = append_message (fst (roles conv)) inp conv;
          conv2 = append_message (snd (roles conv1)) [] conv1;
          prompt = get_prompt d conv2;
          r = generate_answer (model d) (tokenizer d) prompt 2048 w;
          outputs = fst r
      in (set_last_content (strip outputs) conv2, snd r))"

function interactive_loop ::
  "'sty deps \<Rightarrow> 'sty conversation \<Rightarrow> world \<Rightarrow> error option \<times> 'sty conversation \<times> world" where
  "interactive_loop d conv w =
     (case read_inp (fst (roles conv)) w of
        (Inl e, w1) \<Rightarrow> (Some e, conv, w1)
      | (Inr inp, w1) \<Rightarrow>
          if inp = [] then (None, conv, w1)
          else (case interactive_turn d conv inp w1 of
                  (Inl e, w2) \<Rightarrow> (Some e, conv, w2)
                | (Inr conv', w2) \<Rightarrow> interactive_loop d conv' w2))"
  by pat_completeness auto
termination
proof (relation "measure (\<lambda>(d, conv, w). length (stdin w))")
  show "wf (measure (\<lambda>(d, conv, w). length (stdin w)))"
    by simp
next
  fix d :: "'sty deps" and conv conv' :: "'sty conversation" and w w1 w2 :: world
    and x :: "error + pystr" and y :: "error + 'sty conversation" and inp :: pystr
  assume r: "(x, w1) = read_inp (fst (roles conv)) w" "x = Inr inp" "inp \<noteq> []"
    and t: "(y, w2) = interactive_turn d conv inp w1" "y = Inr conv'"
  from r have "stdin w = inp # stdin w1"
    by (auto simp: read_inp_def prompt_for_input_def split: list.splits if_splits)
  moreover from t have "stdin w2 = stdin w1"
    by (auto simp: interactive_turn_def generate_answer_def log_def Let_def split: if_splits)
  ultimately show "((d, conv', w2), (d, conv, w)) \<in> measure (\<lambda>(d, conv, w). length (stdin w))"
    by simp
qed

declare interactive_loop.simps [simp del]

text \<open>
  Lines 164 to 174, the loop over the examples with the list \<open>results\<close>, and \<open>main\<close>
  from line 126 on: the examples, then the interactive loop or the batch run with the
  dump of lines 176 to 179.
\<close>

fun batch_loop ::
  "'sty deps \<Rightarrow> pystr \<Rightarrow> pystr list \<Rightarrow> prediction list \<Rightarrow> world \<Rightarrow> prediction list \<times> world" where
  "batch_loop d name [] results w = (results, w)"
| "batch_loop d name (example # examples) results w =
     (let conv = get_conv_template d name;
          conv1 = append_message (fst (roles conv)) example conv;
          conv2 = append_message (snd (roles conv1)) [] conv1;
          prompt = get_prompt d conv2;
          r = generate_answer (model d) (tokenizer d) prompt 2048 w;
          response = fst r
      in batch_loop d name examples (results @ [\<lparr>Input = prompt, Output = response\<rparr>]) (snd r))"

declare batch_loop.simps(2) [simp del]

definition main :: "'sty deps \<Rightarrow> args \<Rightarrow> world \<Rightarrow> error option \<times> world" where
  "main d a w =
     (case load_examples (data_file a) w of
        Inl e \<Rightarrow> (Some e, w)
      | Inr examples \<Rightarrow>
          if interactive a then
            (case interactive_loop d (get_conv_template d (template_name a)) w of
               (e, conv, w1) \<Rightarrow> (e, w1))
          else
            (let r = batch_loop d (template_name a) examples [] w;
                 results = fst r;
                 dirname = os_path_dirname (predictions_file a)
             in case os_makedirs dirname (snd r) of
                  (Some e, w2) \<Rightarrow> (Some e, w2)
                | (None, w2) \<Rightarrow>
                    (case open_w (predictions_file a) w2 of
                       (Some e, w3) \<Rightarrow> (Some e, w3)
                     | (None, w3) \<Rightarrow> json_dump (predictions_file a) results w3)))"

section \<open>Reading a run\<close>

text \<open>
  The prompt of one turn: the render of the conversation after the user's message and
  the empty assistant placeholder have been appended.
\<close>

definition turn_prompt :: "'sty deps \<Rightarrow> 'sty conversation \<Rightarrow> pystr \<Rightarrow> pystr" where
  "turn_prompt d conv inp =
     get_prompt d
       (conv\<lparr>messages := messages conv @ [(fst (roles conv), inp), (snd (roles conv), [])]\<rparr>)"

fun json_dumps :: "event list \<Rightarrow> (pystr \<times> prediction list) list" where
  "json_dumps [] = []"
| "json_dumps (JsonDump path rs # es) = (path, rs) # json_dumps es"
| "json_dumps (e # es) = json_dumps es"

text \<open>
  Test doubles: a tokenizer with one token per code point, a model that appends a fixed
  reply to its input, a template that renders every message as \<open>role:content\<close> and
  a newline, and a world whose file system refuses nothing.
\<close>

definition char_tokenizer :: "pystr \<Rightarrow> tokenizer" where
  "char_tokenizer eos = \<lparr>encode = map int, decode = map nat, eos_token = eos\<rparr>"

definition stub_model :: "pystr \<Rightarrow> nat \<Rightarrow> token list \<Rightarrow> token list" where
  "stub_model reply k ids = ids @ map int reply"

definition plain_template :: "pystr \<Rightarrow> unit conversation" where
  "plain_template name =
     \<lparr>template_id = name, roles = ([85], [65]), messages = [], separator_style = ()\<rparr>"

definition plain_prompt :: "unit conversation \<Rightarrow> pystr" where
  "plain_prompt conv = concat (map (\<lambda>(r, c). r @ [58] @ c @ [10]) (messages conv))"

definition stub_deps :: "pystr \<Rightarrow> pystr \<Rightarrow> unit deps" where
  "stub_deps eos reply =
     \<lparr>model = stub_model reply, tokenizer = char_tokenizer eos,
      get_conv_template = plain_template, get_prompt = plain_prompt\<rparr>"

definition stub_args :: "pystr option \<Rightarrow> bool \<Rightarrow> pystr \<Rightarrow> args" where
  "stub_args file chat out =
     \<lparr>model_type = ascii ''bloom'', base_model = ascii ''m'', lora_model = [],
      tokenizer_path = None, template_name = ascii ''vicuna'', data_file = file,
      interactive = chat, predictions_file = out, resize_emb = False\<rparr>"

definition stub_world :: "pystr list \<Rightarrow> (pystr \<rightharpoonup> pystr) \<Rightarrow> world" where
  "stub_world ins fs =
     \<lparr>stdin = ins, files = fs, makedirs_error = Map.empty, open_error = Map.empty,
      dump_error = (\<lambda>path results. None), trace = []\<rparr>"

section \<open>Slices\<close>

lemmas run_defs = generate_answer_def Let_def log_def py_rfind_def py_slice_def py_slice_from_def
  py_index_def occurs_at_def max_new_tokens_def stub_deps_def stub_model_def char_tokenizer_def
  plain_template_def plain_prompt_def stub_args_def stub_world_def append_message_def
  turn_prompt_def

lemma py_slice_from_neg:
  "0 < m \<Longrightarrow> py_slice_from (- m) xs = drop (length xs - nat m) xs"
  by (simp add: py_slice_from_def py_index_def nat_diff_distrib' max_def)

lemma py_slice_from_nonneg:
  "0 \<le> k \<Longrightarrow> py_slice_from k xs = drop (nat k) xs"
  by (simp add: py_slice_from_def py_index_def min_def)

lemma generate_answer_trace:
  "trace (snd (generate_answer mdl tok prompt c w)) =
     trace w @ [Tokenize prompt,
                Generate (py_slice_from (- (c - max_new_tokens - 8)) (encode tok prompt))]"
  by (simp add: generate_answer_def Let_def log_def)

lemma model_inputs_append:
  "model_inputs (es @ fs) = model_inputs es @ model_inputs fs"
  by (induction es rule: model_inputs.induct) simp_all

lemma generate_answer_trace_budget:
  assumes "m = c - max_new_tokens - 8"
  shows "trace (snd (generate_answer mdl tok prompt c w)) =
     trace w @ [Tokenize prompt, Generate (py_slice_from (- m) (encode tok prompt))]"
  unfolding assms by (rule generate_answer_trace)

lemma model_inputs_snoc_Generate:
  "model_inputs (es @ [Tokenize p, Generate ids]) = model_inputs es @ [ids]"
  by (simp add: model_inputs_append)

section \<open>Searching for the marker\<close>

lemma hd_filter_desc:
  assumes "filter P (rev [lo ..< hi]) = q # qs"
  shows "lo \<le> q \<and> q < hi \<and> P q \<and> (\<forall>r. lo \<le> r \<and> r < hi \<and> P r \<longrightarrow> r \<le> q)"
proof -
  have q: "q \<in> set (filter P (rev [lo ..< hi]))"
    by (simp add: assms)
  have "sorted_wrt (\<lambda>x y. y < x) (rev [lo ..< hi])"
    by (simp add: sorted_wrt_rev)
  then have "sorted_wrt (\<lambda>x y. y < x) (filter P (rev [lo ..< hi]))"
    by (rule sorted_wrt_filter)
  then have below: "\<forall>r \<in> set qs. r < q"
    by (simp add: assms)
  have "r \<le> q" if "lo \<le> r" "r < hi" "P r" for r
  proof -
    have "r \<in> set (filter P (rev [lo ..< hi]))"
      using that by simp
    then have "r = q \<or> r \<in> set qs"
      by (simp add: assms)
    with below show ?thesis by auto
  qed
  with q show ?thesis by auto
qed

lemma py_rfind_found:
  assumes "lo \<le> p" "occurs_at s sub p"
  shows "\<exists>q. py_rfind s sub (int lo) = int q \<and> p \<le> q \<and> occurs_at s sub q \<and>
             (\<forall>r. occurs_at s sub r \<longrightarrow> r \<le> q)"
proof -
  define hi where "hi = Suc (length s - length sub)"
  have bound: "r < hi" if "occurs_at s sub r" for r
    using that by (auto simp: occurs_at_def hi_def)
  have fits: "\<not> int (length s) - int lo < int (length sub)"
    using assms by (auto simp: occurs_at_def)
  have "p \<in> set (filter (occurs_at s sub) (rev [lo ..< hi]))"
    using assms bound by simp
  then obtain q qs where f: "filter (occurs_at s sub) (rev [lo ..< hi]) = q # qs"
    by (cases "filter (occurs_at s sub) (rev [lo ..< hi])") auto
  from hd_filter_desc [OF f]
  have q: "lo \<le> q" "occurs_at s sub q"
    and top: "\<And>r. lo \<le> r \<Longrightarrow> r < hi \<Longrightarrow> occurs_at s sub r \<Longrightarrow> r \<le> q"
    by auto
  have "py_rfind s sub (int lo) = int q"
    using fits f by (simp add: py_rfind_def Let_def hi_def)
  moreover have "p \<le> q"
    using top assms bound by simp
  moreover have "r \<le> q" if "occurs_at s sub r" for r
  proof (cases "lo \<le> r")
    case True
    then show ?thesis using top that bound by simp
  next
    case False
    then show ?thesis using q(1) by simp
  qed
  ultimately show ?thesis using q by blast
qed

lemma py_rfind_none:
  assumes "\<And>p. lo \<le> p \<Longrightarrow> \<not> occurs_at s sub p"
  shows "py_rfind s sub (int lo) = - 1"
proof -
  have "filter (occurs_at s sub) (rev [lo ..< Suc (length s - length sub)]) = []"
    using assms by (auto simp: filter_empty_conv)
  then show ?thesis
    by (simp add: py_rfind_def Let_def)
qed

lemma py_slice_nonneg:
  "l \<le> q \<Longrightarrow> q \<le> length xs \<Longrightarrow> py_slice (int l) (int q) xs = take (q - l) (drop l xs)"
  by (simp add: py_slice_def py_index_def Let_def min_def)

lemma py_slice_from_nat: "py_slice_from (int l) xs = drop l xs"
  by (simp add: py_slice_from_def py_index_def min_def)

lemma generate_answer_result:
  assumes "ids = py_slice_from (- (c - max_new_tokens - 8)) (encode tok prompt)"
    and "out = decode tok (mdl (length (model_inputs (trace w))) ids)"
    and "l = length (decode tok ids)"
  shows "fst (generate_answer mdl tok prompt c w) =
           (if py_rfind out (eos_token tok) (int l) \<noteq> - 1
            then py_slice (int l) (py_rfind out (eos_token tok) (int l)) out
            else py_slice_from (int l) out)"
  unfolding assms by (simp add: generate_answer_def Let_def log_def model_inputs_append)

lemma generate_answer_found:
  assumes "ids = py_slice_from (- (c - max_new_tokens - 8)) (encode tok prompt)"
    and "out = decode tok (mdl (length (model_inputs (trace w))) ids)"
    and "l = length (decode tok ids)"
    and "l \<le> p" "occurs_at out (eos_token tok) p"
  shows "\<exists>q. p \<le> q \<and> occurs_at out (eos_token tok) q \<and>
             (\<forall>r. occurs_at out (eos_token tok) r \<longrightarrow> r \<le> q) \<and>
             fst (generate_answer mdl tok prompt c w) = take (q - l) (drop l out)"
proof -
  from py_rfind_found [OF assms(4,5)] obtain q where
    q: "py_rfind out (eos_token tok) (int l) = int q" "p \<le> q" "occurs_at out (eos_token tok) q"
      "\<forall>r. occurs_at out (eos_token tok) r \<longrightarrow> r \<le> q"
    by blast
  have "q \<le> length out" using q(3) by (simp add: occurs_at_def)
  moreover have "l \<le> q" using assms(4) q(2) by simp
  ultimately have "fst (generate_answer mdl tok prompt c w) = take (q - l) (drop l out)"
    by (simp add: generate_answer_result [where mdl = mdl and w = w, OF assms(1-3)] q(1) py_slice_nonneg)
  with q show ?thesis by blast
qed

lemma generate_answer_not_found:
  assumes "ids = py_slice_from (- (c - max_new_tokens - 8)) (encode tok prompt)"
    and "out = decode tok (mdl (length (model_inputs (trace w))) ids)"
    and "l = length (decode tok ids)"
    and "\<And>p. l \<le> p \<Longrightarrow> \<not> occurs_at out (eos_token tok) p"
  shows "fst (generate_answer mdl tok prompt c w) = drop l out"
  by (simp add: generate_answer_result [where mdl = mdl and w = w, OF assms(1-3)] py_rfind_none [OF assms(4)]
      py_slice_from_nat)

lemma occurs_at_hd_mem:
  assumes "occurs_at s sub p" "sub \<noteq> []"
  shows "hd sub \<in> set s"
proof -
  have "set sub \<subseteq> set s"
    using assms(1) set_take_subset set_drop_subset
    unfolding occurs_at_def by (metis order_trans)
  with assms(2) show ?thesis by (cases sub) auto
qed

lemma occurs_at_inside:
  assumes "occurs_at out sub r" "l \<le> r" "r + length sub \<le> q" "q \<le> length out"
  shows "occurs_at (take (q - l) (drop l out)) sub (r - l)"
proof -
  have len: "length (take (q - l) (drop l out)) = q - l"
    using assms by simp
  have "drop (r - l) (take (q - l) (drop l out)) = take (q - r) (drop r out)"
    using assms by (simp add: drop_take)
  then have "take (length sub) (drop (r - l) (take (q - l) (drop l out))) =
      take (length sub) (drop r out)"
    using assms by (simp add: min_def)
  then show ?thesis
    using assms len by (simp add: occurs_at_def)
qed

section \<open>The token budget\<close>

text \<open>
  C1. For every prompt and every positive \<open>max_src_len = context_len - max_new_tokens - 8\<close>,
  \<open>generate_answer\<close> makes one call of the model, and its input is the last
  \<open>max_src_len\<close> tokens of the tokenization of the prompt when the tokenization is longer
  than \<open>max_src_len\<close> (then exactly \<open>max_src_len\<close> tokens), and the whole tokenization
  otherwise.
\<close>

theorem generate_answer_truncation:
  assumes "0 < context_len - max_new_tokens - 8"
  shows "\<exists>ids. model_inputs (trace (snd (generate_answer mdl tok prompt context_len w))) =
             model_inputs (trace w) @ [ids] \<and>
           (if context_len - max_new_tokens - 8 < int (length (encode tok prompt))
            then int (length ids) = context_len - max_new_tokens - 8 \<and>
                 ids = drop (length (encode tok prompt) - nat (context_len - max_new_tokens - 8))
                         (encode tok prompt)
            else ids = encode tok prompt)"
proof -
  define m where "m = context_len - max_new_tokens - 8"
  define xs where "xs = encode tok prompt"
  have pos: "0 < m" using assms by (simp add: m_def)
  have tr: "model_inputs (trace (snd (generate_answer mdl tok prompt context_len w))) =
      model_inputs (trace w) @ [py_slice_from (- m) xs]"
    by (simp only: generate_answer_trace_budget [OF m_def] model_inputs_snoc_Generate xs_def)
  have sl: "py_slice_from (- m) xs = drop (length xs - nat m) xs"
    using pos by (rule py_slice_from_neg)
  have "if m < int (length xs)
        then int (length (py_slice_from (- m) xs)) = m \<and>
             py_slice_from (- m) xs = drop (length xs - nat m) xs
        else py_slice_from (- m) xs = xs"
    using pos by (auto simp: sl)
  with tr show ?thesis
    unfolding m_def xs_def by blast
qed

text \<open>
  With \<open>context_len = 412\<close> the budget is 4 tokens: of the six tokens of \<open>abcdef\<close> the
  model receives the last four.
\<close>

theorem generate_answer_truncation_witness:
  "(0::int) < 412 - max_new_tokens - 8 \<and>
   model_inputs (trace (snd (generate_answer (stub_model [111, 107]) (char_tokenizer [36])
     [97, 98, 99, 100, 101, 102] 412 (stub_world [] Map.empty)))) = [[99, 100, 101, 102]]"
proof -
  have h: "(0::int) < 412 - max_new_tokens - 8"
    by (simp add: max_new_tokens_def)
  show ?thesis
    using h generate_answer_truncation [OF h, where mdl = "stub_model [111, 107]"
      and tok = "char_tokenizer [36]" and prompt = "[97, 98, 99, 100, 101, 102]"
      and w = "stub_world [] Map.empty"]
    by (simp add: char_tokenizer_def stub_world_def max_new_tokens_def)
qed

text \<open>
  C9. When \<open>context_len - max_new_tokens - 8\<close> is exactly 0, \<open>generate_answer\<close> tokenizes
  the prompt and calls the model as for any other budget, and the slice
  \<open>input_ids[-0:]\<close> hands over the whole tokenization: more tokens than the budget of 0
  as soon as the tokenization has a token.
\<close>

theorem generate_answer_zero_budget:
  assumes "context_len - max_new_tokens - 8 = 0"
  shows "trace (snd (generate_answer mdl tok prompt context_len w)) =
           trace w @ [Tokenize prompt, Generate (encode tok prompt)] \<and>
         (encode tok prompt \<noteq> [] \<longrightarrow>
            context_len - max_new_tokens - 8 < int (length (encode tok prompt)))"
proof -
  have "trace (snd (generate_answer mdl tok prompt context_len w)) =
      trace w @ [Tokenize prompt, Generate (py_slice_from (- 0) (encode tok prompt))]"
    by (rule generate_answer_trace_budget) (simp add: assms)
  then show ?thesis
    using assms by (simp add: py_slice_from_nonneg)
qed

theorem generate_answer_zero_budget_witness:
  "(408::int) - max_new_tokens - 8 = 0 \<and>
   trace (snd (generate_answer (stub_model [111, 107]) (char_tokenizer [36])
     [97, 98, 99] 408 (stub_world [] Map.empty))) = [Tokenize [97, 98, 99], Generate [97, 98, 99]] \<and>
   (408::int) - max_new_tokens - 8 < int (length (encode (char_tokenizer [36]) [97, 98, 99]))"
proof -
  have h: "(408::int) - max_new_tokens - 8 = 0"
    by (simp add: max_new_tokens_def)
  show ?thesis
    using h generate_answer_zero_budget [OF h, where mdl = "stub_model [111, 107]"
      and tok = "char_tokenizer [36]" and prompt = "[97, 98, 99]"
      and w = "stub_world [] Map.empty"]
    by (simp add: char_tokenizer_def stub_world_def)
qed

text \<open>
  C3, as the code has it. \<open>generate_answer\<close> has no check of the budget and no
  \<open>raise\<close>: for every \<open>context_len\<close> with \<open>context_len - max_new_tokens - 8 \<le> 0\<close> it
  tokenizes the prompt and calls the model, with the tokenization less its first
  \<open>max_new_tokens + 8 - context_len\<close> tokens.
\<close>

theorem generate_answer_nonpositive_budget:
  assumes "context_len - max_new_tokens - 8 \<le> 0"
  shows "trace (snd (generate_answer mdl tok prompt context_len w)) =
           trace w @ [Tokenize prompt,
                      Generate (drop (nat (max_new_tokens + 8 - context_len)) (encode tok prompt))]"
proof -
  define k where "k = max_new_tokens + 8 - context_len"
  have k: "0 \<le> k" using assms by (simp add: k_def)
  have "trace (snd (generate_answer mdl tok prompt context_len w)) =
      trace w @ [Tokenize prompt, Generate (py_slice_from (- (- k)) (encode tok prompt))]"
    by (rule generate_answer_trace_budget) (simp add: k_def)
  then show ?thesis
    using k by (simp add: py_slice_from_nonneg k_def)
qed

theorem generate_answer_nonpositive_budget_witness:
  "(407::int) - max_new_tokens - 8 \<le> 0 \<and>
   trace (snd (generate_answer (stub_model [111, 107]) (char_tokenizer [36])
     [97, 98, 99] 407 (stub_world [] Map.empty))) = [Tokenize [97, 98, 99], Generate [98, 99]]"
proof -
  have h: "(407::int) - max_new_tokens - 8 \<le> 0"
    by (simp add: max_new_tokens_def)
  show ?thesis
    using h generate_answer_nonpositive_budget [OF h, where mdl = "stub_model [111, 107]"
      and tok = "char_tokenizer [36]" and prompt = "[97, 98, 99]"
      and w = "stub_world [] Map.empty"]
    by (simp add: char_tokenizer_def stub_world_def max_new_tokens_def)
qed

text \<open>
  With \<open>context_len = 100\<close> the budget is negative, and the prompt is tokenized and the
  model is called all the same (here with no token left).
\<close>

theorem generate_answer_guard_counterexample:
  "trace (snd (generate_answer (stub_model [111, 107]) (char_tokenizer [36])
     [97, 98, 99] 100 (stub_world [] Map.empty))) = [Tokenize [97, 98, 99], Generate []]"
  by (simp add: generate_answer_def Let_def log_def char_tokenizer_def stub_world_def
      max_new_tokens_def py_slice_from_def py_index_def)

section \<open>The continuation\<close>

text \<open>
  C2. Let \<open>out\<close> be the decoded full output and \<open>l_prompt\<close> the length of the decoded
  input. When the end-of-sequence marker occurs in \<open>out\<close> at some position at or after
  \<open>l_prompt\<close>, \<open>generate_answer\<close> returns the text from \<open>l_prompt\<close> up to such a
  position, the marker excluded; when it occurs at no such position, \<open>generate_answer\<close>
  returns everything from \<open>l_prompt\<close> to the end of \<open>out\<close>.
\<close>

theorem generate_answer_continuation:
  assumes "ids = py_slice_from (- (context_len - max_new_tokens - 8)) (encode tok prompt)"
    and "out = decode tok (mdl (length (model_inputs (trace w))) ids)"
    and "l_prompt = length (decode tok ids)"
  shows "((\<exists>p. l_prompt \<le> p \<and> occurs_at out (eos_token tok) p) \<longrightarrow>
            (\<exists>p. l_prompt \<le> p \<and> occurs_at out (eos_token tok) p \<and>
               fst (generate_answer mdl tok prompt context_len w) =
                 take (p - l_prompt) (drop l_prompt out))) \<and>
         (\<not> (\<exists>p. l_prompt \<le> p \<and> occurs_at out (eos_token tok) p) \<longrightarrow>
            fst (generate_answer mdl tok prompt context_len w) = drop l_prompt out)"
proof (intro conjI impI)
  assume "\<exists>p. l_prompt \<le> p \<and> occurs_at out (eos_token tok) p"
  then obtain p where p: "l_prompt \<le> p" "occurs_at out (eos_token tok) p"
    by blast
  from generate_answer_found [where mdl = mdl and w = w, OF assms p]
  obtain q where "p \<le> q" "occurs_at out (eos_token tok) q"
    "fst (generate_answer mdl tok prompt context_len w) = take (q - l_prompt) (drop l_prompt out)"
    by blast
  with p(1) show "\<exists>p. l_prompt \<le> p \<and> occurs_at out (eos_token tok) p \<and>
      fst (generate_answer mdl tok prompt context_len w) = take (p - l_prompt) (drop l_prompt out)"
    by (intro exI [of _ q]) simp
next
  assume "\<not> (\<exists>p. l_prompt \<le> p \<and> occurs_at out (eos_token tok) p)"
  then have "\<And>p. l_prompt \<le> p \<Longrightarrow> \<not> occurs_at out (eos_token tok) p"
    by blast
  then show "fst (generate_answer mdl tok prompt context_len w) = drop l_prompt out"
    by (rule generate_answer_not_found [where mdl = mdl and w = w, OF assms])
qed

lemma stub_run_marker:
  "fst (generate_answer (stub_model [111, 107, 36]) (char_tokenizer [36]) [97, 98] 2048
     (stub_world [] Map.empty)) = [111, 107]"
  by (simp add: run_defs)

text \<open>
  The prompt \<open>ab\<close> with the reply \<open>ok$\<close> and the marker \<open>$\<close> gives \<open>ok\<close>; so does the
  reply \<open>ok\<close> without a marker.
\<close>

theorem generate_answer_continuation_witness:
  "occurs_at [97, 98, 111, 107, 36] [36::nat] 4 \<and>
   fst (generate_answer (stub_model [111, 107, 36]) (char_tokenizer [36]) [97, 98] 2048
     (stub_world [] Map.empty)) = take (4 - 2) (drop 2 [97, 98, 111, 107, 36]) \<and>
   \<not> (\<exists>p. 2 \<le> p \<and> occurs_at [97, 98, 111, 107] [36::nat] p) \<and>
   fst (generate_answer (stub_model [111, 107]) (char_tokenizer [36]) [97, 98] 2048
     (stub_world [] Map.empty)) = drop 2 [97, 98, 111, 107]"
proof -
  have ids: "[97, 98] = py_slice_from (- (2048 - max_new_tokens - 8))
      (encode (char_tokenizer [36]) [97, 98])"
    by (simp add: char_tokenizer_def py_slice_from_def py_index_def max_new_tokens_def)
  have l: "2 = length (decode (char_tokenizer [36]) [97, 98])"
    by (simp add: char_tokenizer_def)
  have out1: "[97, 98, 111, 107, 36] = decode (char_tokenizer [36])
      (stub_model [111, 107, 36] (length (model_inputs (trace (stub_world [] Map.empty)))) [97, 98])"
    by (simp add: char_tokenizer_def stub_model_def)
  have out2: "[97, 98, 111, 107] = decode (char_tokenizer [36])
      (stub_model [111, 107] (length (model_inputs (trace (stub_world [] Map.empty)))) [97, 98])"
    by (simp add: char_tokenizer_def stub_model_def)
  have occ: "occurs_at [97, 98, 111, 107, 36] [36::nat] 4"
    by (simp add: occurs_at_def)
  have none: "\<not> (\<exists>p. 2 \<le> p \<and> occurs_at [97, 98, 111, 107] [36::nat] p)"
    using occurs_at_hd_mem [of "[97, 98, 111, 107]" "[36::nat]"] by auto
  from generate_answer_continuation [where mdl = "stub_model [111, 107]"
      and w = "stub_world [] Map.empty", OF ids out2 l] none
  have "fst (generate_answer (stub_model [111, 107]) (char_tokenizer [36]) [97, 98] 2048
     (stub_world [] Map.empty)) = drop 2 [97, 98, 111, 107]"
    by (simp add: char_tokenizer_def)
  moreover have "fst (generate_answer (stub_model [111, 107, 36]) (char_tokenizer [36]) [97, 98] 2048
     (stub_world [] Map.empty)) = take (4 - 2) (drop 2 [97, 98, 111, 107, 36])"
    by (simp add: stub_run_marker)
  ultimately show ?thesis
    using occ none by simp
qed

text \<open>
  C8, as the code has it. When the marker occurs at two or more positions at or after
  \<open>l_prompt\<close>, \<open>generate_answer\<close> returns the text from \<open>l_prompt\<close> up to the last
  occurrence, and every earlier occurrence that ends at or before the start of the last
  one is an occurrence of the marker in the returned text.
\<close>

theorem generate_answer_last_marker:
  assumes "ids = py_slice_from (- (context_len - max_new_tokens - 8)) (encode tok prompt)"
    and "out = decode tok (mdl (length (model_inputs (trace w))) ids)"
    and "l_prompt = length (decode tok ids)"
    and "l_prompt \<le> p1" "p1 < p2"
    and "occurs_at out (eos_token tok) p1" "occurs_at out (eos_token tok) p2"
  shows "\<exists>q. p2 \<le> q \<and> occurs_at out (eos_token tok) q \<and>
           (\<forall>r. occurs_at out (eos_token tok) r \<longrightarrow> r \<le> q) \<and>
           fst (generate_answer mdl tok prompt context_len w) =
             take (q - l_prompt) (drop l_prompt out) \<and>
           (\<forall>r. l_prompt \<le> r \<and> r + length (eos_token tok) \<le> q \<and>
                occurs_at out (eos_token tok) r \<longrightarrow>
                occurs_at (fst (generate_answer mdl tok prompt context_len w))
                  (eos_token tok) (r - l_prompt))"
proof -
  have "l_prompt \<le> p2" using assms(4,5) by simp
  from generate_answer_found [where mdl = mdl and w = w, OF assms(1-3) this assms(7)]
  obtain q where q: "p2 \<le> q" "occurs_at out (eos_token tok) q"
    "\<forall>r. occurs_at out (eos_token tok) r \<longrightarrow> r \<le> q"
    "fst (generate_answer mdl tok prompt context_len w) = take (q - l_prompt) (drop l_prompt out)"
    by blast
  have "q \<le> length out" using q(2) by (simp add: occurs_at_def)
  then have "occurs_at (fst (generate_answer mdl tok prompt context_len w))
      (eos_token tok) (r - l_prompt)"
    if "l_prompt \<le> r" "r + length (eos_token tok) \<le> q" "occurs_at out (eos_token tok) r" for r
    unfolding q(4) using that by (intro occurs_at_inside) simp_all
  with q show ?thesis by blast
qed

text \<open>The prompt \<open>ab\<close> with the reply \<open>$x$\<close>: the returned text is \<open>$x\<close>.\<close>

theorem generate_answer_last_marker_witness:
  "(2::nat) \<le> 2 \<and> (2::nat) < 4 \<and>
   occurs_at [97, 98, 36, 120, 36] [36::nat] 2 \<and> occurs_at [97, 98, 36, 120, 36] [36::nat] 4 \<and>
   fst (generate_answer (stub_model [36, 120, 36]) (char_tokenizer [36]) [97, 98] 2048
     (stub_world [] Map.empty)) = [36, 120] \<and>
   occurs_at (fst (generate_answer (stub_model [36, 120, 36]) (char_tokenizer [36]) [97, 98] 2048
     (stub_world [] Map.empty))) [36] (2 - 2)"
proof -
  have ids: "[97, 98] = py_slice_from (- (2048 - max_new_tokens - 8))
      (encode (char_tokenizer [36]) [97, 98])"
    by (simp add: char_tokenizer_def py_slice_from_def py_index_def max_new_tokens_def)
  have l: "2 = length (decode (char_tokenizer [36]) [97, 98])"
    by (simp add: char_tokenizer_def)
  have out: "[97, 98, 36, 120, 36] = decode (char_tokenizer [36])
      (stub_model [36, 120, 36] (length (model_inputs (trace (stub_world [] Map.empty)))) [97, 98])"
    by (simp add: char_tokenizer_def stub_model_def)
  have o2: "occurs_at [97, 98, 36, 120, 36] (eos_token (char_tokenizer [36])) 2"
    and o4: "occurs_at [97, 98, 36, 120, 36] (eos_token (char_tokenizer [36])) 4"
    by (simp_all add: occurs_at_def char_tokenizer_def)
  from generate_answer_last_marker [where mdl = "stub_model [36, 120, 36]"
      and w = "stub_world [] Map.empty" and ?p1.0 = 2 and ?p2.0 = 4, OF ids out l _ _ o2 o4]
  obtain q where q: "4 \<le> q" "occurs_at [97, 98, 36, 120, 36] [36::nat] q"
    "fst (generate_answer (stub_model [36, 120, 36]) (char_tokenizer [36]) [97, 98] 2048
       (stub_world [] Map.empty)) = take (q - 2) (drop 2 [97, 98, 36, 120, 36])"
    "\<forall>r. 2 \<le> r \<and> r + 1 \<le> q \<and> occurs_at [97, 98, 36, 120, 36] [36::nat] r \<longrightarrow>
       occurs_at (fst (generate_answer (stub_model [36, 120, 36]) (char_tokenizer [36]) [97, 98] 2048
         (stub_world [] Map.empty))) [36] (r - 2)"
    by (auto simp: char_tokenizer_def)
  from q(1,2) have "q = 4" by (simp add: occurs_at_def)
  with q(3) q(4) [rule_format, of 2] o2 o4 show ?thesis
    by (simp add: char_tokenizer_def)
qed

text \<open>
  An earlier occurrence that overlaps the last one is cut: with the marker \<open>aa\<close> and the
  output \<open>baaa\<close> after the prompt \<open>b\<close>, the marker occurs at 1 and at 2, the returned
  text is \<open>a\<close>, and the marker is no part of it.
\<close>

theorem generate_answer_last_marker_counterexample:
  "decode (char_tokenizer [97, 97]) (stub_model [97, 97, 97] 0 [98]) = [98, 97, 97, 97] \<and>
   occurs_at [98, 97, 97, 97] [97, 97::nat] 1 \<and>
   occurs_at [98, 97, 97, 97] [97, 97::nat] 2 \<and>
   fst (generate_answer (stub_model [97, 97, 97]) (char_tokenizer [97, 97]) [98] 2048
     (stub_world [] Map.empty)) = [97] \<and>
   \<not> occurs_at [97] [97, 97::nat] 0 \<and>
   py_rfind [97] [97, 97::nat] 0 = - 1"
  by (simp add: run_defs)

section \<open>Interactive sessions\<close>

text \<open>
  \<open>generate_answer\<close> leaves the standard input and the files alone; a turn never meets
  the \<open>IndexError\<close> of an empty message list, since it has appended two messages.
\<close>

lemma generate_answer_world:
  "snd (generate_answer mdl tok prompt c w) =
     w\<lparr>trace := trace w @ [Tokenize prompt,
        Generate (py_slice_from (- (c - max_new_tokens - 8)) (encode tok prompt))]\<rparr>"
  by (simp add: generate_answer_def Let_def log_def)

lemma interactive_turn_eq:
  "interactive_turn d conv inp w =
     (Inr (conv\<lparr>messages := messages conv @
             [(fst (roles conv), inp),
              (snd (roles conv),
               strip (fst (generate_answer (model d) (tokenizer d) (turn_prompt d conv inp) 2048 w)))]\<rparr>),
      snd (generate_answer (model d) (tokenizer d) (turn_prompt d conv inp) 2048 w))"
  by (simp add: interactive_turn_def append_message_def set_last_content_def turn_prompt_def
      Let_def)

lemma read_inp_eof:
  "stdin w = [] \<Longrightarrow> read_inp role w = (Inr [], w)"
  by (simp add: read_inp_def prompt_for_input_def)

lemma read_inp_line:
  "stdin w = inp # rest \<Longrightarrow> read_inp role w = (Inr inp, w\<lparr>stdin := rest\<rparr>)"
  by (simp add: read_inp_def prompt_for_input_def)

lemma interactive_loop_eof:
  "stdin w = [] \<Longrightarrow> interactive_loop d conv w = (None, conv, w)"
  by (subst interactive_loop.simps) (simp add: read_inp_eof)

lemma interactive_loop_empty_line:
  "stdin w = [] # rest \<Longrightarrow> interactive_loop d conv w = (None, conv, w\<lparr>stdin := rest\<rparr>)"
  by (subst interactive_loop.simps) (simp add: read_inp_line)

lemma interactive_loop_turn:
  assumes "stdin w = inp # rest" "inp \<noteq> []"
  shows "interactive_loop d conv w =
     interactive_loop d
       (conv\<lparr>messages := messages conv @
             [(fst (roles conv), inp),
              (snd (roles conv),
               strip (fst (generate_answer (model d) (tokenizer d) (turn_prompt d conv inp) 2048
                 (w\<lparr>stdin := rest\<rparr>))))]\<rparr>)
       (snd (generate_answer (model d) (tokenizer d) (turn_prompt d conv inp) 2048
          (w\<lparr>stdin := rest\<rparr>)))"
  using assms
  by (subst interactive_loop.simps) (simp add: read_inp_line interactive_turn_eq)

lemma interactive_loop_returns:
  "stdin w = ins \<Longrightarrow> fst (interactive_loop d conv w) = None"
proof (induction ins arbitrary: conv w)
  case Nil
  then show ?case by (simp add: interactive_loop_eof)
next
  case (Cons inp rest)
  show ?case
  proof (cases "inp = []")
    case True
    with Cons.prems show ?thesis by (simp add: interactive_loop_empty_line)
  next
    case False
    have "stdin (snd (generate_answer (model d) (tokenizer d) (turn_prompt d conv inp) 2048
        (w\<lparr>stdin := rest\<rparr>))) = rest"
      by (simp add: generate_answer_world)
    then show ?thesis
      by (simp only: interactive_loop_turn [OF Cons.prems False] Cons.IH)
  qed
qed

lemma interactive_loop_calls:
  "stdin w = ins \<Longrightarrow> \<forall>l \<in> set ins. l \<noteq> [] \<Longrightarrow>
     length (model_inputs (trace (snd (snd (interactive_loop d conv w))))) =
       length (model_inputs (trace w)) + length ins"
proof (induction ins arbitrary: conv w)
  case Nil
  then show ?case by (simp add: interactive_loop_eof)
next
  case (Cons inp rest)
  let ?w = "snd (generate_answer (model d) (tokenizer d) (turn_prompt d conv inp) 2048
        (w\<lparr>stdin := rest\<rparr>))"
  have inp: "inp \<noteq> []" and rest: "\<forall>l \<in> set rest. l \<noteq> []"
    using Cons.prems(2) by simp_all
  have "stdin ?w = rest"
    by (simp add: generate_answer_world)
  from Cons.IH [OF this rest]
  have "length (model_inputs (trace (snd (snd (interactive_loop d conv w))))) =
      length (model_inputs (trace ?w)) + length rest"
    by (simp only: interactive_loop_turn [OF Cons.prems(1) inp])
  then show ?case
    by (simp add: generate_answer_world model_inputs_append)
qed

lemma main_interactive:
  assumes "interactive a" "load_examples (data_file a) w = Inr examples"
  shows "main d a w =
     (fst (interactive_loop d (get_conv_template d (template_name a)) w),
      snd (snd (interactive_loop d (get_conv_template d (template_name a)) w)))"
  using assms by (simp add: main_def split: prod.splits)

text \<open>
  C5. In interactive mode (the examples having been loaded), \<open>main\<close> returns without an
  error whatever the standard input holds: the end of the input is read as the empty
  string and ends the loop like an empty line does. When the first read meets the end of
  the input or an empty line, no call of the tokenizer or the model is made. When every
  line of the input is non-empty, each line is one turn with one call of the model, and
  the end of the input after the last turn ends the session.
\<close>

theorem interactive_termination:
  assumes "interactive a" "load_examples (data_file a) w = Inr examples"
  shows "fst (main d a w) = None \<and>
         (stdin w = [] \<or> (\<exists>rest. stdin w = [] # rest) \<longrightarrow>
            trace (snd (main d a w)) = trace w) \<and>
         ((\<forall>l \<in> set (stdin w). l \<noteq> []) \<longrightarrow>
            length (model_inputs (trace (snd (main d a w)))) =
              length (model_inputs (trace w)) + length (stdin w))"
proof (intro conjI impI)
  show "fst (main d a w) = None"
    by (simp add: main_interactive [OF assms] interactive_loop_returns)
next
  assume "stdin w = [] \<or> (\<exists>rest. stdin w = [] # rest)"
  then show "trace (snd (main d a w)) = trace w"
    by (auto simp: main_interactive [OF assms] interactive_loop_eof interactive_loop_empty_line)
next
  assume "\<forall>l \<in> set (stdin w). l \<noteq> []"
  then show "length (model_inputs (trace (snd (main d a w)))) =
      length (model_inputs (trace w)) + length (stdin w)"
    by (simp add: main_interactive [OF assms] interactive_loop_calls)
qed

text \<open>
  Three sessions: an empty input, an input whose first line is empty, and the single
  line \<open>hi\<close> followed by the end of the input.
\<close>

theorem interactive_termination_witness:
  "interactive (stub_args None True [112]) \<and>
   load_examples (data_file (stub_args None True [112])) (stub_world [] Map.empty) =
     Inr builtin_examples \<and>
   main (stub_deps [36] [111, 107, 36]) (stub_args None True [112]) (stub_world [] Map.empty) =
     (None, stub_world [] Map.empty) \<and>
   main (stub_deps [36] [111, 107, 36]) (stub_args None True [112])
     (stub_world [[], [104, 105]] Map.empty) = (None, stub_world [[104, 105]] Map.empty) \<and>
   fst (main (stub_deps [36] [111, 107, 36]) (stub_args None True [112])
     (stub_world [[104, 105]] Map.empty)) = None \<and>
   length (model_inputs (trace (snd (main (stub_deps [36] [111, 107, 36])
     (stub_args None True [112]) (stub_world [[104, 105]] Map.empty))))) = 1"
proof -
  have i: "interactive (stub_args None True [112])"
    by (simp add: stub_args_def)
  have l: "load_examples (data_file (stub_args None True [112])) w = Inr builtin_examples" for w
    by (simp add: stub_args_def load_examples_def)
  note t = interactive_termination [OF i l, where d = "stub_deps [36] [111, 107, 36]"]
  have "fst (main (stub_deps [36] [111, 107, 36]) (stub_args None True [112])
          (stub_world [] Map.empty)) = None"
    "trace (snd (main (stub_deps [36] [111, 107, 36]) (stub_args None True [112])
          (stub_world [] Map.empty))) = []"
    using t [of "stub_world [] Map.empty"] by (simp_all add: stub_world_def)
  moreover have "main (stub_deps [36] [111, 107, 36]) (stub_args None True [112])
      (stub_world [] Map.empty) = (None, stub_world [] Map.empty)"
    by (simp add: main_interactive [OF i l] interactive_loop_eof stub_world_def)
  moreover have "main (stub_deps [36] [111, 107, 36]) (stub_args None True [112])
     (stub_world [[], [104, 105]] Map.empty) = (None, stub_world [[104, 105]] Map.empty)"
    by (simp add: main_interactive [OF i l] interactive_loop_empty_line [where rest = "[[104, 105]]"]
        stub_world_def)
  moreover have "fst (main (stub_deps [36] [111, 107, 36]) (stub_args None True [112])
     (stub_world [[104, 105]] Map.empty)) = None"
   "length (model_inputs (trace (snd (main (stub_deps [36] [111, 107, 36])
     (stub_args None True [112]) (stub_world [[104, 105]] Map.empty))))) = 1"
    using t [of "stub_world [[104, 105]] Map.empty"] by (simp_all add: stub_world_def)
  ultimately show ?thesis
    using i l by simp
qed

text \<open>
  C6. In interactive mode, a turn on a non-empty line \<open>inp\<close> calls \<open>generate_answer\<close> on
  the prompt of the turn; the conversation the loop goes on with is the old one with
  the user's message and, as the last message, the assistant's role with the returned
  continuation stripped of its leading and trailing whitespace. Every later render reads
  this conversation.
\<close>

theorem interactive_turn_stores_stripped:
  assumes "stdin w = inp # rest" "inp \<noteq> []"
  shows "\<exists>output conv' w'.
           (output, w') = generate_answer (model d) (tokenizer d) (turn_prompt d conv inp) 2048
                            (w\<lparr>stdin := rest\<rparr>) \<and>
           interactive_turn d conv inp (w\<lparr>stdin := rest\<rparr>) = (Inr conv', w') \<and>
           last (messages conv') = (snd (roles conv), strip output) \<and>
           conv' = conv\<lparr>messages := messages conv @
                      [(fst (roles conv), inp), (snd (roles conv), strip output)]\<rparr> \<and>
           interactive_loop d conv w = interactive_loop d conv' w'"
proof -
  let ?r = "generate_answer (model d) (tokenizer d) (turn_prompt d conv inp) 2048
      (w\<lparr>stdin := rest\<rparr>)"
  let ?conv = "conv\<lparr>messages := messages conv @
      [(fst (roles conv), inp), (snd (roles conv), strip (fst ?r))]\<rparr>"
  have "(fst ?r, snd ?r) = ?r" by simp
  moreover have "interactive_turn d conv inp (w\<lparr>stdin := rest\<rparr>) = (Inr ?conv, snd ?r)"
    by (rule interactive_turn_eq)
  moreover have "last (messages ?conv) = (snd (roles conv), strip (fst ?r))" by simp
  moreover have "interactive_loop d conv w = interactive_loop d ?conv (snd ?r)"
    using assms by (rule interactive_loop_turn)
  ultimately show ?thesis by blast
qed

lemma stub_turn:
  "fst (generate_answer (stub_model [32, 111, 107, 32, 36]) (char_tokenizer [36])
     [85, 58, 104, 105, 10, 65, 58, 10] 2048 (stub_world [] Map.empty)) = [32, 111, 107, 32] \<and>
   strip [32, 111, 107, 32] = [111, 107] \<and>
   fst (interactive_turn (stub_deps [36] [32, 111, 107, 32, 36]) (plain_template [118]) [104, 105]
     (stub_world [] Map.empty)) =
   Inr ((plain_template [118])\<lparr>messages := [([85], [104, 105]), ([65], [111, 107])]\<rparr>)"
  by (simp add: interactive_turn_eq generate_answer_def Let_def log_def py_rfind_def py_slice_def
      py_slice_from_def py_index_def occurs_at_def max_new_tokens_def stub_deps_def stub_model_def
      char_tokenizer_def plain_template_def plain_prompt_def stub_world_def turn_prompt_def
      strip_def isspace_def)

text \<open>
  The line \<open>hi\<close> with the reply \<open>" ok "\<close>: the stored content is \<open>ok\<close>.
\<close>

theorem interactive_turn_stores_stripped_witness:
  "stdin (stub_world [[104, 105]] Map.empty) = [104, 105] # [] \<and>
   [104, 105] \<noteq> ([]::pystr) \<and>
   fst (generate_answer (stub_model [32, 111, 107, 32, 36]) (char_tokenizer [36])
     [85, 58, 104, 105, 10, 65, 58, 10] 2048 (stub_world [] Map.empty)) = [32, 111, 107, 32] \<and>
   fst (interactive_turn (stub_deps [36] [32, 111, 107, 32, 36]) (plain_template [118]) [104, 105]
     (stub_world [] Map.empty)) =
   Inr ((plain_template [118])\<lparr>messages := [([85], [104, 105]), ([65], [111, 107])]\<rparr>) \<and>
   messages (fst (snd (interactive_loop (stub_deps [36] [32, 111, 107, 32, 36])
     (plain_template [118]) (stub_world [[104, 105]] Map.empty)))) =
       [([85], [104, 105]), ([65], [111, 107])]"
proof -
  have s: "stdin (stub_world [[104, 105]] Map.empty) = [104, 105] # []"
    by (simp add: stub_world_def)
  have n: "[104, 105] \<noteq> ([]::pystr)" by simp
  have w: "(stub_world [[104, 105]] Map.empty)\<lparr>stdin := []\<rparr> = stub_world [] Map.empty"
    by (simp add: stub_world_def)
  from interactive_turn_stores_stripped [OF s n, where d = "stub_deps [36] [32, 111, 107, 32, 36]"
      and conv = "plain_template [118]"]
  obtain conv' w' where
    t: "interactive_turn (stub_deps [36] [32, 111, 107, 32, 36]) (plain_template [118]) [104, 105]
          (stub_world [] Map.empty) = (Inr conv', w')"
    and l: "interactive_loop (stub_deps [36] [32, 111, 107, 32, 36]) (plain_template [118])
          (stub_world [[104, 105]] Map.empty) =
        interactive_loop (stub_deps [36] [32, 111, 107, 32, 36]) conv' w'"
    unfolding w by blast
  from t have c: "conv' = (plain_template [118])\<lparr>messages := [([85], [104, 105]), ([65], [111, 107])]\<rparr>"
    and "w' = snd (generate_answer (model (stub_deps [36] [32, 111, 107, 32, 36]))
        (tokenizer (stub_deps [36] [32, 111, 107, 32, 36]))
        (turn_prompt (stub_deps [36] [32, 111, 107, 32, 36]) (plain_template [118]) [104, 105])
        2048 (stub_world [] Map.empty))"
    using stub_turn by (simp_all add: interactive_turn_eq)
  then have "stdin w' = []"
    by (simp add: generate_answer_world stub_world_def)
  then have "interactive_loop (stub_deps [36] [32, 111, 107, 32, 36]) conv' w' = (None, conv', w')"
    by (rule interactive_loop_eof)
  with l c show ?thesis
    using stub_turn s n by simp
qed

section \<open>Loading the examples\<close>

text \<open>
  The lines of a text are its pieces: joined they give the text back, none is empty, a
  newline stands only at the end of a line, and every line but the last ends with one.
\<close>

lemma concat_readlines: "concat (readlines t) = t"
  by (induction t) (auto split: list.splits)

lemma readlines_nonempty: "l \<in> set (readlines t) \<Longrightarrow> l \<noteq> []"
  by (induction t arbitrary: l) (auto split: list.splits if_splits)

lemma readlines_newline_last: "l \<in> set (readlines t) \<Longrightarrow> 10 \<notin> set (butlast l)"
proof (induction t arbitrary: l)
  case Nil
  then show ?case by simp
next
  case (Cons c cs)
  show ?case
  proof (cases "c = 10")
    case True
    with Cons show ?thesis by auto
  next
    case False
    show ?thesis
    proof (cases "readlines cs")
      case Nil
      with Cons.prems False show ?thesis by simp
    next
      case lines: (Cons k ks)
      have k: "k \<noteq> []" "10 \<notin> set (butlast k)"
        using readlines_nonempty [of k cs] Cons.IH [of k] lines by simp_all
      from Cons.prems False lines have "l = c # k \<or> l \<in> set ks" by simp
      then show ?thesis
      proof
        assume "l = c # k"
        with k False show ?thesis by simp
      next
        assume "l \<in> set ks"
        with Cons.IH [of l] lines show ?thesis by simp
      qed
    qed
  qed
qed

lemma readlines_terminated: "l \<in> set (butlast (readlines t)) \<Longrightarrow> last l = 10"
proof (induction t arbitrary: l)
  case Nil
  then show ?case by simp
next
  case (Cons c cs)
  show ?case
  proof (cases "c = 10")
    case True
    with Cons show ?thesis by (auto split: if_splits)
  next
    case False
    show ?thesis
    proof (cases "readlines cs")
      case Nil
      with Cons.prems False show ?thesis by simp
    next
      case lines: (Cons k ks)
      have k: "k \<noteq> []"
        using readlines_nonempty [of k cs] lines by simp
      show ?thesis
      proof (cases "ks = []")
        case True
        with Cons.prems False lines show ?thesis by simp
      next
        case ks: False
        with Cons.prems False lines have "l = c # k \<or> l \<in> set (butlast ks)" by simp
        then show ?thesis
        proof
          assume l: "l = c # k"
          have "k \<in> set (butlast (readlines cs))" using lines ks by simp
          from Cons.IH [OF this] l k show ?thesis by simp
        next
          assume "l \<in> set (butlast ks)"
          then have "l \<in> set (butlast (readlines cs))" using lines ks by simp
          then show ?thesis by (rule Cons.IH)
        qed
      qed
    qed
  qed
qed

text \<open>
  \<open>strip\<close> cuts whitespace off both ends, and what it leaves neither starts nor ends
  with whitespace.
\<close>

lemma strip_decomp:
  "\<exists>pre suf. s = pre @ strip s @ suf \<and> list_all isspace pre \<and> list_all isspace suf"
proof -
  let ?ys = "dropWhile isspace s"
  have "?ys = rev (dropWhile isspace (rev ?ys)) @ rev (takeWhile isspace (rev ?ys))"
    by (metis rev_append rev_rev_ident takeWhile_dropWhile_id)
  then have ys: "?ys = strip s @ rev (takeWhile isspace (rev ?ys))"
    by (simp only: strip_def)
  have "s = takeWhile isspace s @ ?ys" by simp
  with ys have "s = takeWhile isspace s @ strip s @ rev (takeWhile isspace (rev ?ys))"
    by simp
  moreover have "list_all isspace (takeWhile isspace s)"
    by (simp add: list_all_iff) (meson set_takeWhileD)
  moreover have "list_all isspace (rev (takeWhile isspace (rev ?ys)))"
    by (simp add: list_all_iff) (meson set_takeWhileD)
  ultimately show ?thesis by blast
qed

lemma strip_ends:
  assumes "strip s \<noteq> []"
  shows "\<not> isspace (hd (strip s))" "\<not> isspace (last (strip s))"
proof -
  let ?ys = "dropWhile isspace s"
  have ne: "dropWhile isspace (rev ?ys) \<noteq> []"
    using assms by (simp add: strip_def)
  have "last (strip s) = hd (dropWhile isspace (rev ?ys))"
    using ne by (simp add: strip_def last_rev)
  with ne show "\<not> isspace (last (strip s))"
    by (simp add: hd_dropWhile)
  have "?ys = rev (dropWhile isspace (rev ?ys)) @ rev (takeWhile isspace (rev ?ys))"
    by (metis rev_append rev_rev_ident takeWhile_dropWhile_id)
  then have ys: "?ys = strip s @ rev (takeWhile isspace (rev ?ys))"
    by (simp only: strip_def)
  then have "hd ?ys = hd (strip s)" "?ys \<noteq> []"
    using assms by (metis hd_append2, metis append_is_Nil_conv)
  then show "\<not> isspace (hd (strip s))"
    by (metis hd_dropWhile)
qed

text \<open>
  C7, as the code has it. Without a data file the examples are the two built-in prompts.
  With a data file the examples are the lines of the file, each stripped, one example
  per line: the lines are the pieces of the text (read with universal newlines) that end
  with a newline, and the rest after the last newline when it is not empty. An empty
  line is a line and gives the empty example.
\<close>

theorem load_examples_per_line:
  "load_examples None w = Inr builtin_examples \<and> length builtin_examples = 2 \<and>
   (files w path = Some text \<longrightarrow>
      (\<exists>lines. load_examples (Some path) w = Inr (map strip lines) \<and>
         concat lines = universal_newlines text \<and>
         (\<forall>l \<in> set lines. l \<noteq> [] \<and> 10 \<notin> set (butlast l)) \<and>
         (\<forall>l \<in> set (butlast lines). last l = 10)))"
proof (intro conjI impI)
  assume f: "files w path = Some text"
  let ?lines = "readlines (universal_newlines text)"
  have "load_examples (Some path) w = Inr (map strip ?lines)"
    using f by (simp add: load_examples_def)
  moreover have "concat ?lines = universal_newlines text"
    by (rule concat_readlines)
  moreover have "\<forall>l \<in> set ?lines. l \<noteq> [] \<and> 10 \<notin> set (butlast l)"
    using readlines_nonempty readlines_newline_last by blast
  moreover have "\<forall>l \<in> set (butlast ?lines). last l = 10"
    using readlines_terminated by blast
  ultimately show "\<exists>lines. load_examples (Some path) w = Inr (map strip lines) \<and>
         concat lines = universal_newlines text \<and>
         (\<forall>l \<in> set lines. l \<noteq> [] \<and> 10 \<notin> set (butlast l)) \<and>
         (\<forall>l \<in> set (butlast lines). last l = 10)"
    by blast
qed (simp_all add: load_examples_def builtin_examples_def)

text \<open>
  A file with the three lines \<open>" a\r\n"\<close>, \<open>"\n"\<close> and \<open>"b c\n"\<close> gives the examples
  \<open>a\<close>, the empty string and \<open>b c\<close>.
\<close>

theorem load_examples_per_line_witness:
  "files (stub_world [] [[102] \<mapsto> [32, 97, 13, 10, 10, 98, 32, 99, 10]]) [102] =
     Some [32, 97, 13, 10, 10, 98, 32, 99, 10] \<and>
   load_examples (Some [102]) (stub_world [] [[102] \<mapsto> [32, 97, 13, 10, 10, 98, 32, 99, 10]]) =
     Inr [[97], [], [98, 32, 99]]"
  using load_examples_per_line [of "stub_world [] [[102] \<mapsto> [32, 97, 13, 10, 10, 98, 32, 99, 10]]"
      "[102]" "[32, 97, 13, 10, 10, 98, 32, 99, 10]"]
  by (simp add: load_examples_def stub_world_def strip_def isspace_def)

text \<open>
  The file \<open>"a\n\nb\n"\<close> has two non-empty lines and gives three examples.
\<close>

theorem load_examples_blank_line_counterexample:
  "readlines (universal_newlines [97, 10, 10, 98, 10]) = [[97, 10], [10], [98, 10]] \<and>
   load_examples (Some [102]) (stub_world [] [[102] \<mapsto> [97, 10, 10, 98, 10]]) =
     Inr [[97], [], [98]]"
  by (simp add: load_examples_def stub_world_def strip_def isspace_def)

section \<open>Batch runs\<close>

text \<open>
  One round of the loop over the examples, and the loop on a list of examples extended
  at its end.
\<close>

lemma batch_loop_step:
  "batch_loop d n (x # xs) rs w =
     batch_loop d n xs
       (rs @ [\<lparr>Input = turn_prompt d (get_conv_template d n) x,
               Output = fst (generate_answer (model d) (tokenizer d)
                 (turn_prompt d (get_conv_template d n) x) 2048 w)\<rparr>])
       (snd (generate_answer (model d) (tokenizer d)
          (turn_prompt d (get_conv_template d n) x) 2048 w))"
  by (simp add: batch_loop.simps(2) Let_def append_message_def turn_prompt_def)

lemma batch_loop_append:
  "batch_loop d n (xs @ ys) rs w =
     batch_loop d n ys (fst (batch_loop d n xs rs w)) (snd (batch_loop d n xs rs w))"
proof (induction xs arbitrary: rs w)
  case Nil
  then show ?case by simp
next
  case (Cons x xs)
  show ?case
    unfolding append_Cons batch_loop_step by (rule Cons.IH)
qed

lemma batch_loop_snoc:
  "fst (batch_loop d n (xs @ [x]) [] w) =
     fst (batch_loop d n xs [] w) @
       [\<lparr>Input = turn_prompt d (get_conv_template d n) x,
         Output = fst (generate_answer (model d) (tokenizer d)
           (turn_prompt d (get_conv_template d n) x) 2048 (snd (batch_loop d n xs [] w)))\<rparr>]"
  by (simp add: batch_loop_append batch_loop_step)

lemma batch_loop_length:
  "length (fst (batch_loop d n xs [] w)) = length xs"
  by (induction xs rule: rev_induct) (simp_all add: batch_loop_snoc)

lemma batch_loop_nth:
  "i < length xs \<Longrightarrow>
     fst (batch_loop d n xs [] w) ! i =
       \<lparr>Input = turn_prompt d (get_conv_template d n) (xs ! i),
        Output = fst (generate_answer (model d) (tokenizer d)
          (turn_prompt d (get_conv_template d n) (xs ! i)) 2048
          (snd (batch_loop d n (take i xs) [] w)))\<rparr>"
proof (induction xs rule: rev_induct)
  case Nil
  then show ?case by simp
next
  case (snoc x xs)
  show ?case
  proof (cases "i < length xs")
    case True
    with snoc.IH show ?thesis
      by (simp add: batch_loop_snoc nth_append batch_loop_length)
  next
    case False
    with snoc.prems have "i = length xs" by simp
    then show ?thesis
      by (simp add: batch_loop_snoc nth_append batch_loop_length)
  qed
qed

lemma json_dumps_append:
  "json_dumps (es @ fs) = json_dumps es @ json_dumps fs"
  by (induction es rule: json_dumps.induct) simp_all

lemma batch_loop_json_dumps:
  "json_dumps (trace (snd (batch_loop d n xs rs w))) = json_dumps (trace w)"
  by (induction xs arbitrary: rs w)
    (simp_all add: batch_loop_step generate_answer_world json_dumps_append)

lemma batch_loop_calls:
  "length (model_inputs (trace (snd (batch_loop d n xs rs w)))) =
     length (model_inputs (trace w)) + length xs"
  by (induction xs arbitrary: rs w)
    (simp_all add: batch_loop_step generate_answer_world model_inputs_append)

lemma batch_loop_keeps:
  "files (snd (batch_loop d n xs rs w)) = files w"
  "makedirs_error (snd (batch_loop d n xs rs w)) = makedirs_error w"
  "open_error (snd (batch_loop d n xs rs w)) = open_error w"
  "dump_error (snd (batch_loop d n xs rs w)) = dump_error w"
  by (induction xs arbitrary: rs w) (simp_all add: batch_loop_step generate_answer_world)

lemma outcomes_after_batch_loop:
  "makedirs_outcome (snd (batch_loop d n xs rs w)) name = makedirs_outcome w name"
  "open_outcome (log e (snd (batch_loop d n xs rs w))) path = open_outcome w path"
  "dump_error (log e (log e' (snd (batch_loop d n xs rs w)))) = dump_error w"
  by (simp_all add: makedirs_outcome_def open_outcome_def log_def batch_loop_keeps)

text \<open>
  The batch run after the loop: the three calls of lines 177 to 179, each of which may
  be refused.
\<close>

lemma main_batch:
  assumes "\<not> interactive a" "load_examples (data_file a) w = Inr examples"
  shows "main d a w =
     (case makedirs_outcome w (os_path_dirname (predictions_file a)) of
        Some e \<Rightarrow> (Some e, snd (batch_loop d (template_name a) examples [] w))
      | None \<Rightarrow>
          (case open_outcome w (predictions_file a) of
             Some e \<Rightarrow>
               (Some e,
                log (Makedirs (os_path_dirname (predictions_file a)))
                  (snd (batch_loop d (template_name a) examples [] w)))
           | None \<Rightarrow>
               (case dump_error w (predictions_file a)
                       (fst (batch_loop d (template_name a) examples [] w)) of
                  Some e \<Rightarrow>
                    (Some e,
                     log (OpenWrite (predictions_file a))
                       (log (Makedirs (os_path_dirname (predictions_file a)))
                          (snd (batch_loop d (template_name a) examples [] w))))
                | None \<Rightarrow>
                    (None,
                     log (JsonDump (predictions_file a)
                            (fst (batch_loop d (template_name a) examples [] w)))
                       (log (OpenWrite (predictions_file a))
                          (log (Makedirs (os_path_dirname (predictions_file a)))
                             (snd (batch_loop d (template_name a) examples [] w))))))))"
  using assms
  by (simp add: main_def Let_def os_makedirs_def open_w_def json_dump_def
      outcomes_after_batch_loop split: option.splits)

lemma makedirs_outcome_empty: "makedirs_outcome w [] = Some FileNotFoundError"
  by (simp add: makedirs_outcome_def)

text \<open>
  The predictions file has no directory component exactly when its name has no slash.
\<close>

lemma os_path_dirname_no_slash:
  assumes "47 \<notin> set p"
  shows "os_path_dirname p = []"
proof -
  have "\<not> occurs_at p [47] q" for q
    using occurs_at_hd_mem [of p "[47]" q] assms by auto
  then have "py_rfind p [47] (int 0) = - 1"
    by (intro py_rfind_none) simp
  then show ?thesis
    by (simp add: os_path_dirname_def py_slice_def py_index_def)
qed

lemma os_path_dirname_empty_iff:
  "os_path_dirname p = [] \<longleftrightarrow> 47 \<notin> set p"
proof
  assume "47 \<notin> set p"
  then show "os_path_dirname p = []" by (rule os_path_dirname_no_slash)
next
  assume e: "os_path_dirname p = []"
  show "47 \<notin> set p"
  proof
    assume "47 \<in> set p"
    then obtain i where i: "i < length p" "p ! i = 47"
      by (auto simp: in_set_conv_nth)
    then have "occurs_at p [47] i"
      by (simp add: occurs_at_def take_Suc_conv_app_nth)
    from py_rfind_found [OF _ this, of 0]
    obtain q where q: "py_rfind p [47] 0 = int q" "occurs_at p [47] q"
      by auto
    define head where "head = py_slice 0 (int q + 1) p"
    have "q < length p" using q(2) by (simp add: occurs_at_def)
    then have head: "head = take (Suc q) p"
      by (simp add: head_def py_slice_def py_index_def nat_add_distrib)
    then have ne: "head \<noteq> []"
      using \<open>q < length p\<close> by auto
    have d: "os_path_dirname p =
        (if head \<noteq> replicate (length head) 47
         then rev (dropWhile (\<lambda>c. c = 47) (rev head)) else head)"
      using ne by (simp add: os_path_dirname_def q(1) head_def Let_def)
    show False
    proof (cases "head = replicate (length head) 47")
      case True
      with d e ne show False by simp
    next
      case False
      then have "\<exists>x \<in> set head. x \<noteq> 47"
        by (metis replicate_length_same)
      then have "dropWhile (\<lambda>c. c = 47) (rev head) \<noteq> []"
        by auto
      with d e False show False by simp
    qed
  qed
qed

lemma stub_dirname:
  "os_path_dirname [46, 47, 112] = [46]" "os_path_dirname [112, 46, 106] = []"
  by (simp_all add: os_path_dirname_def run_defs)

lemma stub_batch_run:
  "fst (main (stub_deps [36] [32, 111, 107, 36]) (stub_args None False [46, 47, 112])
     (stub_world [] Map.empty)) = None \<and>
   json_dumps (trace (snd (main (stub_deps [36] [32, 111, 107, 36])
     (stub_args None False [46, 47, 112]) (stub_world [] Map.empty)))) =
     [([46, 47, 112],
       [\<lparr>Input = [85, 58, 20171, 32461, 19979, 21271, 20140, 10, 65, 58, 10],
         Output = [32, 111, 107]\<rparr>,
        \<lparr>Input = [85, 58, 20057, 32925, 21644, 19993, 32925, 30340, 21306, 21035, 65311, 10,
                  65, 58, 10],
         Output = [32, 111, 107]\<rparr>])]"
  by (simp add: main_def load_examples_def builtin_examples_def batch_loop.simps(2)
      os_makedirs_def makedirs_outcome_def open_w_def open_outcome_def json_dump_def
      stub_dirname run_defs)

lemma stub_nodir_run:
  "fst (main (stub_deps [36] [32, 111, 107, 36]) (stub_args None False [112, 46, 106])
     (stub_world [] Map.empty)) = Some FileNotFoundError \<and>
   trace (snd (main (stub_deps [36] [32, 111, 107, 36])
     (stub_args None False [112, 46, 106]) (stub_world [] Map.empty))) =
     [Tokenize [85, 58, 20171, 32461, 19979, 21271, 20140, 10, 65, 58, 10],
      Generate [85, 58, 20171, 32461, 19979, 21271, 20140, 10, 65, 58, 10],
      Tokenize [85, 58, 20057, 32925, 21644, 19993, 32925, 30340, 21306, 21035, 65311, 10,
                  65, 58, 10],
      Generate [85, 58, 20057, 32925, 21644, 19993, 32925, 30340, 21306, 21035, 65311, 10,
                  65, 58, 10]]"
  by (simp add: main_def load_examples_def builtin_examples_def batch_loop.simps(2)
      os_makedirs_def makedirs_outcome_def open_w_def open_outcome_def json_dump_def
      stub_dirname run_defs)

lemma stub_refused_runs:
  "fst (main (stub_deps [36] [32, 111, 107, 36]) (stub_args None False [111, 47])
     (stub_world [] Map.empty)) = Some IsADirectoryError"
  "fst (main (stub_deps [36] [32, 111, 107, 36]) (stub_args None False [102, 47, 112])
     (stub_world [] [[102] \<mapsto> [120]])) = Some FileExistsError"
  by (simp_all add: main_def load_examples_def builtin_examples_def batch_loop.simps(2)
      os_makedirs_def makedirs_outcome_def open_w_def open_outcome_def json_dump_def
      os_path_dirname_def run_defs)

text \<open>
  C4, as the code has it. In batch mode the list \<open>results\<close> after the loop has one
  record per example, in the order of the examples, whose \<open>Input\<close> is the rendered
  prompt of the example (a fresh template with the example as the user's message and
  the empty placeholder) and whose \<open>Output\<close> is the continuation that
  \<open>generate_answer\<close> returned for this prompt, as it was returned. When the file system
  refuses neither the creation of the directory nor the opening of the predictions file
  nor the dump, \<open>main\<close> returns without an error and the one dump it makes to the
  predictions file is this list.
\<close>

theorem batch_records:
  assumes "\<not> interactive a" "load_examples (data_file a) w = Inr examples"
  shows "\<exists>results.
           results = fst (batch_loop d (template_name a) examples [] w) \<and>
           length results = length examples \<and>
           (\<forall>i < length examples.
              Input (results ! i) =
                turn_prompt d (get_conv_template d (template_name a)) (examples ! i) \<and>
              Output (results ! i) =
                fst (generate_answer (model d) (tokenizer d) (Input (results ! i)) 2048
                  (snd (batch_loop d (template_name a) (take i examples) [] w)))) \<and>
           (makedirs_outcome w (os_path_dirname (predictions_file a)) = None \<and>
            open_outcome w (predictions_file a) = None \<and>
            dump_error w (predictions_file a) results = None \<longrightarrow>
              fst (main d a w) = None \<and>
              json_dumps (trace (snd (main d a w))) =
                json_dumps (trace w) @ [(predictions_file a, results)])"
proof -
  let ?rs = "fst (batch_loop d (template_name a) examples [] w)"
  have len: "length ?rs = length examples"
    by (rule batch_loop_length)
  have recs: "\<forall>i < length examples.
      Input (?rs ! i) =
        turn_prompt d (get_conv_template d (template_name a)) (examples ! i) \<and>
      Output (?rs ! i) =
        fst (generate_answer (model d) (tokenizer d) (Input (?rs ! i)) 2048
          (snd (batch_loop d (template_name a) (take i examples) [] w)))"
    by (simp add: batch_loop_nth)
  have written: "makedirs_outcome w (os_path_dirname (predictions_file a)) = None \<and>
      open_outcome w (predictions_file a) = None \<and>
      dump_error w (predictions_file a) ?rs = None \<longrightarrow>
      fst (main d a w) = None \<and>
      json_dumps (trace (snd (main d a w))) = json_dumps (trace w) @ [(predictions_file a, ?rs)]"
  proof (intro impI, elim conjE)
    assume ok: "makedirs_outcome w (os_path_dirname (predictions_file a)) = None"
      "open_outcome w (predictions_file a) = None"
      "dump_error w (predictions_file a) ?rs = None"
    have "main d a w =
        (None,
         log (JsonDump (predictions_file a) ?rs)
           (log (OpenWrite (predictions_file a))
              (log (Makedirs (os_path_dirname (predictions_file a)))
                 (snd (batch_loop d (template_name a) examples [] w)))))"
      by (simp only: main_batch [OF assms] ok option.case)
    then show "fst (main d a w) = None \<and>
        json_dumps (trace (snd (main d a w))) =
          json_dumps (trace w) @ [(predictions_file a, ?rs)]"
      by (simp add: log_def json_dumps_append batch_loop_json_dumps)
  qed
  show ?thesis
  proof (rule exI [of _ ?rs], intro conjI)
    show "?rs = ?rs" by (rule refl)
    show "length ?rs = length examples" by (rule len)
  qed (rule recs written)+
qed

text \<open>
  The two built-in examples with the reply \<open>" ok$"\<close> and the predictions file \<open>./p\<close>,
  in a world whose file system refuses nothing.
\<close>

theorem batch_records_witness:
  "\<not> interactive (stub_args None False [46, 47, 112]) \<and>
   load_examples (data_file (stub_args None False [46, 47, 112])) (stub_world [] Map.empty) =
     Inr builtin_examples \<and>
   makedirs_outcome (stub_world [] Map.empty)
     (os_path_dirname (predictions_file (stub_args None False [46, 47, 112]))) = None \<and>
   open_outcome (stub_world [] Map.empty)
     (predictions_file (stub_args None False [46, 47, 112])) = None \<and>
   dump_error (stub_world [] Map.empty) (predictions_file (stub_args None False [46, 47, 112]))
      [\<lparr>Input = [85, 58, 20171, 32461, 19979, 21271, 20140, 10, 65, 58, 10],
         Output = [32, 111, 107]\<rparr>,
        \<lparr>Input = [85, 58, 20057, 32925, 21644, 19993, 32925, 30340, 21306, 21035, 65311, 10,
                  65, 58, 10],
         Output = [32, 111, 107]\<rparr>] = None \<and>
   fst (main (stub_deps [36] [32, 111, 107, 36]) (stub_args None False [46, 47, 112])
     (stub_world [] Map.empty)) = None \<and>
   json_dumps (trace (snd (main (stub_deps [36] [32, 111, 107, 36])
     (stub_args None False [46, 47, 112]) (stub_world [] Map.empty)))) =
     [([46, 47, 112],
       [\<lparr>Input = [85, 58, 20171, 32461, 19979, 21271, 20140, 10, 65, 58, 10],
         Output = [32, 111, 107]\<rparr>,
        \<lparr>Input = [85, 58, 20057, 32925, 21644, 19993, 32925, 30340, 21306, 21035, 65311, 10,
                  65, 58, 10],
         Output = [32, 111, 107]\<rparr>])]"
proof -
  have i: "\<not> interactive (stub_args None False [46, 47, 112])"
    by (simp add: stub_args_def)
  have l: "load_examples (data_file (stub_args None False [46, 47, 112]))
      (stub_world [] Map.empty) = Inr builtin_examples"
    by (simp add: stub_args_def load_examples_def)
  have m: "makedirs_outcome (stub_world [] Map.empty)
      (os_path_dirname (predictions_file (stub_args None False [46, 47, 112]))) = None"
    by (simp add: stub_args_def stub_dirname makedirs_outcome_def stub_world_def)
  have p: "open_outcome (stub_world [] Map.empty)
      (predictions_file (stub_args None False [46, 47, 112])) = None"
    by (simp add: stub_args_def open_outcome_def stub_world_def)
  have u: "dump_error (stub_world [] Map.empty) path rs = None" for path rs
    by (simp add: stub_world_def)
  from batch_records [OF i l, of "stub_deps [36] [32, 111, 107, 36]"] m p u
  have "fst (main (stub_deps [36] [32, 111, 107, 36]) (stub_args None False [46, 47, 112])
     (stub_world [] Map.empty)) = None"
    by blast
  with i l m p u stub_batch_run show ?thesis by simp
qed

text \<open>
  The recorded \<open>Output\<close> is \<open>" ok"\<close>, with its leading space; stripped it would be
  \<open>ok\<close>. And a run writes no output JSON at all when its write is refused: with the
  predictions file \<open>o/\<close> the run ends in the \<open>IsADirectoryError\<close> of \<open>open\<close>, and with
  \<open>f/p\<close>, where \<open>f\<close> is a regular file, in the \<open>FileExistsError\<close> of \<open>os.makedirs\<close>.
\<close>

theorem batch_output_counterexample:
  "map Output (snd (hd (json_dumps (trace (snd (main (stub_deps [36] [32, 111, 107, 36])
     (stub_args None False [46, 47, 112]) (stub_world [] Map.empty))))))) =
     [[32, 111, 107], [32, 111, 107]] \<and>
   strip [32, 111, 107] = [111, 107] \<and>
   fst (main (stub_deps [36] [32, 111, 107, 36]) (stub_args None False [111, 47])
     (stub_world [] Map.empty)) = Some IsADirectoryError \<and>
   fst (main (stub_deps [36] [32, 111, 107, 36]) (stub_args None False [102, 47, 112])
     (stub_world [] [[102] \<mapsto> [120]])) = Some FileExistsError"
  using stub_batch_run stub_refused_runs by (simp add: strip_def isspace_def)

text \<open>
  C10. In batch mode, when \<open>os.path.dirname\<close> of the predictions file is the empty
  string, \<open>main\<close> ends with the \<open>FileNotFoundError\<close> of \<open>os.makedirs\<close>: the world is the
  one the loop over the examples has left, with one call of the model per example, and
  nothing has been dumped.
\<close>

theorem batch_no_directory:
  assumes "\<not> interactive a" "load_examples (data_file a) w = Inr examples"
    and "os_path_dirname (predictions_file a) = []"
  shows "fst (main d a w) = Some FileNotFoundError \<and>
         trace (snd (main d a w)) = trace (snd (batch_loop d (template_name a) examples [] w)) \<and>
         length (model_inputs (trace (snd (main d a w)))) =
           length (model_inputs (trace w)) + length examples \<and>
         json_dumps (trace (snd (main d a w))) = json_dumps (trace w)"
  using assms(3)
  by (simp add: main_batch [OF assms(1,2)] makedirs_outcome_empty batch_loop_calls
      batch_loop_json_dumps)

text \<open>
  The predictions file \<open>p.j\<close> has no directory component; the two built-in examples are
  generated and the run fails.
\<close>

theorem batch_no_directory_witness:
  "\<not> interactive (stub_args None False [112, 46, 106]) \<and>
   load_examples (data_file (stub_args None False [112, 46, 106])) (stub_world [] Map.empty) =
     Inr builtin_examples \<and>
   os_path_dirname (predictions_file (stub_args None False [112, 46, 106])) = [] \<and>
   fst (main (stub_deps [36] [32, 111, 107, 36]) (stub_args None False [112, 46, 106])
     (stub_world [] Map.empty)) = Some FileNotFoundError \<and>
   length (model_inputs (trace (snd (main (stub_deps [36] [32, 111, 107, 36])
     (stub_args None False [112, 46, 106]) (stub_world [] Map.empty))))) = 2 \<and>
   json_dumps (trace (snd (main (stub_deps [36] [32, 111, 107, 36])
     (stub_args None False [112, 46, 106]) (stub_world [] Map.empty)))) = []"
proof -
  have i: "\<not> interactive (stub_args None False [112, 46, 106])"
    by (simp add: stub_args_def)
  have l: "load_examples (data_file (stub_args None False [112, 46, 106]))
      (stub_world [] Map.empty) = Inr builtin_examples"
    by (simp add: stub_args_def load_examples_def)
  have p: "os_path_dirname (predictions_file (stub_args None False [112, 46, 106])) = []"
    by (simp add: stub_args_def stub_dirname)
  from batch_no_directory [OF i l p, of "stub_deps [36] [32, 111, 107, 36]"]
  have "fst (main (stub_deps [36] [32, 111, 107, 36]) (stub_args None False [112, 46, 106])
     (stub_world [] Map.empty)) = Some FileNotFoundError"
    by blast
  with i l p stub_nodir_run show ?thesis by simp
qed

end
